theory Spec2Isabelle
  imports Complex_Main "HOL-Library.Char_ord" "HOL-Library.List_Lexorder"
begin

section \<open>Cash action module: variance severity\<close>

text \<open>
  \<^verbatim>\<open>CashActionModule.tsx\<close>, lines 22 and 68-74. A JavaScript number is a double; the
  function only takes the absolute value and compares it with the exact constants 100, 50
  and 20, and both operations are exact on doubles, so a finite variance is modelled as the
  real number it denotes.
\<close>

datatype Severity = low | medium | high | critical

definition calculateSeverity :: "real \<Rightarrow> Severity" where
  "calculateSeverity variance =
     (let absVariance = \<bar>variance\<bar> in
      if absVariance \<ge> 100 then critical
      else if absVariance \<ge> 50 then high
      else if absVariance \<ge> 20 then medium
      else low)"

section \<open>Store action module: checklist completion\<close>

text \<open>
  \<^verbatim>\<open>StoreActionModule\<close> (second component of \<^verbatim>\<open>InventoryActionModule.tsx\<close>):
  the types of lines 450-451 and of \<^verbatim>\<open>lib/supabase.ts\<close>, the completion test of
  \<^verbatim>\<open>handleSubmit\<close> (lines 554-555 and 565) and the \<^verbatim>\<open>disabled\<close> attribute of the
  submit button (line 942).
\<close>

datatype ActionType = opening_checklist | closing_checklist | maintenance

record ChecklistItem =
  item_id :: string
  label :: string
  completed :: bool
  completed_at :: "string option"

definition completedCount :: "ChecklistItem list \<Rightarrow> nat" where
  "completedCount checklistItems = length (filter completed checklistItems)"

definition totalCount :: "ChecklistItem list \<Rightarrow> nat" where
  "totalCount checklistItems = length checklistItems"

definition isFullyCompleted :: "ActionType \<Rightarrow> ChecklistItem list \<Rightarrow> bool" where
  "isFullyCompleted actionType checklistItems \<longleftrightarrow>
     actionType = maintenance \<or> completedCount checklistItems = length checklistItems"

text \<open>The \<^verbatim>\<open>completed_at\<close> field of the record that \<^verbatim>\<open>handleSubmit\<close> hands to the
  sync hook: the submission time when the action is fully completed, \<^verbatim>\<open>null\<close> otherwise.\<close>

definition action_completed_at :: "string \<Rightarrow> ActionType \<Rightarrow> ChecklistItem list \<Rightarrow> string option" where
  "action_completed_at now actionType checklistItems =
     (if isFullyCompleted actionType checklistItems then Some now else None)"

definition submit_disabled :: "bool \<Rightarrow> ActionType \<Rightarrow> ChecklistItem list \<Rightarrow> bool" where
  "submit_disabled submitting actionType checklistItems \<longleftrightarrow>
     submitting \<or> (actionType \<noteq> maintenance \<and> completedCount checklistItems < totalCount checklistItems)"

section \<open>JavaScript values\<close>

text \<open>
  The values a cache entry can carry (what the structured clone of IndexedDB stores), and
  the truthiness that \<^verbatim>\<open>||\<close> tests: \<^verbatim>\<open>undefined\<close>, \<^verbatim>\<open>null\<close>, \<^verbatim>\<open>false\<close>,
  \<^verbatim>\<open>0\<close>, \<^verbatim>\<open>NaN\<close> and the empty string are falsy, everything else is truthy.
\<close>

datatype js_value =
    JUndefined
  | JNull
  | JBoolean bool
  | JNumber real
  | JNaN
  | JInfinity bool
  | JString string
  | JArray "js_value list"
  | JObject "(string \<times> js_value) list"

fun truthy :: "js_value \<Rightarrow> bool" where
  "truthy JUndefined = False"
| "truthy JNull = False"
| "truthy (JBoolean b) = b"
| "truthy (JNumber x) = (x \<noteq> 0)"
| "truthy JNaN = False"
| "truthy (JInfinity negative) = True"
| "truthy (JString s) = (s \<noteq> [])"
| "truthy (JArray xs) = True"
| "truthy (JObject props) = True"

definition js_or :: "js_value \<Rightarrow> js_value \<Rightarrow> js_value" where
  "js_or a b = (if truthy a then a else b)"

section \<open>The durable local store (\<^verbatim>\<open>lib/offlineDb.ts\<close>)\<close>

text \<open>
  Everything the code cannot decide by itself is an input: the value of
  \<^verbatim>\<open>crypto.randomUUID()\<close>, the clock, whether the IndexedDB request (or opening the
  database) fails for a reason outside the program, and how the remote store answers an
  insert. One \<open>env\<close> holds the answers of the outside world for one asynchronous operation.
\<close>

datatype dom_exception = ConstraintError | QuotaExceededError | UnknownError

text \<open>\<^verbatim>\<open>await supabase.from(t).insert(d)\<close> resolves with an object whose \<^verbatim>\<open>error\<close>
  field is \<^verbatim>\<open>null\<close> or an error, or the promise rejects (the \<^verbatim>\<open>await\<close> throws).\<close>

datatype insert_result = Resolved "string option" | Rejected

record env =
  uuid :: string
  now :: nat
  fault :: "dom_exception option"
  response :: insert_result

record 'd OfflineQueueItem =
  id' :: string
  table :: string
  data :: 'd
  timestamp :: nat

record CachedRecord =
  key :: string
  table_c :: string
  data_c :: js_value
  timestamp_c :: nat

record 'd database =
  offlineQueue :: "'d OfflineQueueItem list"
  cachedData :: "CachedRecord list"

text \<open>
  An object store with a key path holds at most one record per key and lists its records
  in key order: \<^verbatim>\<open>add\<close> refuses an existing key (ConstraintError), \<^verbatim>\<open>put\<close> replaces
  the record of an existing key, \<^verbatim>\<open>delete\<close> of an absent key does nothing, \<^verbatim>\<open>get\<close> of an
  absent key gives \<^verbatim>\<open>undefined\<close>.
\<close>

definition store_add :: "('r \<Rightarrow> string) \<Rightarrow> 'r \<Rightarrow> 'r list \<Rightarrow> dom_exception + 'r list" where
  "store_add k r rs = (if k r \<in> k ` set rs then Inl ConstraintError else Inr (insort_key k r rs))"

definition store_put :: "('r \<Rightarrow> string) \<Rightarrow> 'r \<Rightarrow> 'r list \<Rightarrow> 'r list" where
  "store_put k r rs = insort_key k r (filter (\<lambda>x. k x \<noteq> k r) rs)"

definition store_delete :: "('r \<Rightarrow> string) \<Rightarrow> string \<Rightarrow> 'r list \<Rightarrow> 'r list" where
  "store_delete k i rs = filter (\<lambda>x. k x \<noteq> i) rs"

definition store_get :: "('r \<Rightarrow> string) \<Rightarrow> string \<Rightarrow> 'r list \<Rightarrow> 'r option" where
  "store_get k i rs = find (\<lambda>x. k x = i) rs"

definition addToOfflineQueue ::
  "env \<Rightarrow> string \<Rightarrow> 'd \<Rightarrow> 'd database \<Rightarrow> dom_exception + (string \<times> 'd database)" where
  "addToOfflineQueue e tbl dat database =
     (let item = \<lparr>id' = uuid e, table = tbl, data = dat, timestamp = now e\<rparr> in
      case fault e of
        Some err \<Rightarrow> Inl err
      | None \<Rightarrow>
          (case store_add id' item (offlineQueue database) of
             Inl err \<Rightarrow> Inl err
           | Inr queue \<Rightarrow> Inr (uuid e, database\<lparr>offlineQueue := queue\<rparr>)))"

definition getOfflineQueue :: "env \<Rightarrow> 'd database \<Rightarrow> dom_exception + 'd OfflineQueueItem list" where
  "getOfflineQueue e database =
     (case fault e of Some err \<Rightarrow> Inl err | None \<Rightarrow> Inr (offlineQueue database))"

definition removeFromOfflineQueue :: "env \<Rightarrow> string \<Rightarrow> 'd database \<Rightarrow> dom_exception + 'd database" where
  "removeFromOfflineQueue e i database =
     (case fault e of
        Some err \<Rightarrow> Inl err
      | None \<Rightarrow> Inr (database\<lparr>offlineQueue := store_delete id' i (offlineQueue database)\<rparr>))"

definition cacheData :: "env \<Rightarrow> string \<Rightarrow> string \<Rightarrow> js_value \<Rightarrow> 'd database \<Rightarrow> dom_exception + 'd database" where
  "cacheData e k tbl dat database =
     (case fault e of
        Some err \<Rightarrow> Inl err
      | None \<Rightarrow>
          Inr (database\<lparr>cachedData :=
                 store_put key \<lparr>key = k, table_c = tbl, data_c = dat, timestamp_c = now e\<rparr>
                   (cachedData database)\<rparr>))"

text \<open>\<^verbatim>\<open>resolve(request.result?.data || null)\<close>: an absent record gives \<^verbatim>\<open>undefined\<close>
  on the left of \<^verbatim>\<open>||\<close>.\<close>

definition getCachedData :: "env \<Rightarrow> string \<Rightarrow> 'd database \<Rightarrow> dom_exception + js_value" where
  "getCachedData e k database =
     (case fault e of
        Some err \<Rightarrow> Inl err
      | None \<Rightarrow>
          Inr (js_or (case store_get key k (cachedData database) of
                        None \<Rightarrow> JUndefined
                      | Some r \<Rightarrow> data_c r)
                 JNull))"

definition clearCache :: "env \<Rightarrow> 'd database \<Rightarrow> dom_exception + 'd database" where
  "clearCache e database =
     (case fault e of
        Some err \<Rightarrow> Inl err
      | None \<Rightarrow> Inr (database\<lparr>cachedData := [], offlineQueue := []\<rparr>))"

section \<open>The sync hook (\<^verbatim>\<open>hooks/useOfflineSync.ts\<close>)\<close>

text \<open>
  \<open>hook_state\<close> is what one call of \<^verbatim>\<open>useOfflineSync()\<close> owns: its React state
  (\<^verbatim>\<open>pendingCount\<close>, \<^verbatim>\<open>isSyncing\<close>) and its ref (\<^verbatim>\<open>isSyncingRef\<close>). The field
  \<open>calls\<close> is a ghost trace of the requests this instance has issued, so that "no read,
  no insert" can be stated. The database is not owned by the hook: it is the module-level
  \<^verbatim>\<open>db\<close> of \<^verbatim>\<open>lib/offlineDb.ts\<close>. A \<open>hook\<close> is an instance's state together with that
  database as it is when the instance runs; the functions of the hook take and return
  such a value. State updates through \<^verbatim>\<open>setPendingCount\<close> are applied in the order they
  are made, so the model applies them at once.
\<close>

datatype 'd call =
    GetOfflineQueue
  | Insert string 'd
  | RemoveFromOfflineQueue string
  | AddToOfflineQueue string 'd

record 'd hook_state =
  pendingCount :: int
  isSyncing :: bool
  isSyncingRef :: bool
  calls :: "'d call list"

record 'd hook = "'d hook_state" +
  db :: "'d database"

definition mount :: "'d database \<Rightarrow> 'd hook" where
  "mount database =
     \<lparr>pendingCount = 0, isSyncing = False, isSyncingRef = False, calls = [], db = database\<rparr>"

definition loadPendingCount :: "env \<Rightarrow> 'd hook \<Rightarrow> 'd hook" where
  "loadPendingCount e h =
     (let h1 = h\<lparr>calls := calls h @ [GetOfflineQueue]\<rparr> in
      case getOfflineQueue e (db h1) of
        Inl err \<Rightarrow> h1
      | Inr queue \<Rightarrow> h1\<lparr>pendingCount := int (length queue)\<rparr>)"

subsection \<open>\<^verbatim>\<open>submitWithOfflineSupport\<close>\<close>

record submit_result =
  success :: bool
  offline :: bool

text \<open>The two lines that the \<^verbatim>\<open>catch\<close> block and the \<^verbatim>\<open>else\<close> branch share. A
  rejected \<^verbatim>\<open>addToOfflineQueue\<close> leaves the function as an exception (\<open>Inl\<close>), before
  \<^verbatim>\<open>setPendingCount\<close>.\<close>

definition enqueue_offline ::
  "env \<Rightarrow> string \<Rightarrow> 'd \<Rightarrow> 'd hook \<Rightarrow> (dom_exception + submit_result) \<times> 'd hook" where
  "enqueue_offline e tbl dat h =
     (let h1 = h\<lparr>calls := calls h @ [AddToOfflineQueue tbl dat]\<rparr> in
      case addToOfflineQueue e tbl dat (db h1) of
        Inl err \<Rightarrow> (Inl err, h1)
      | Inr (i, database) \<Rightarrow>
          (Inr \<lparr>success = True, offline = True\<rparr>,
           h1\<lparr>db := database, pendingCount := pendingCount h1 + 1\<rparr>))"

definition submitWithOfflineSupport ::
  "env \<Rightarrow> bool \<Rightarrow> string \<Rightarrow> 'd \<Rightarrow> 'd hook \<Rightarrow> (dom_exception + submit_result) \<times> 'd hook" where
  "submitWithOfflineSupport e isOnline tbl dat h =
     (if isOnline then
        (let h1 = h\<lparr>calls := calls h @ [Insert tbl dat]\<rparr> in
         case response e of
           Resolved None \<Rightarrow> (Inr \<lparr>success = True, offline = False\<rparr>, h1)
         | Resolved (Some error) \<Rightarrow> enqueue_offline e tbl dat h1
         | Rejected \<Rightarrow> enqueue_offline e tbl dat h1)
      else enqueue_offline e tbl dat h)"

subsection \<open>\<^verbatim>\<open>syncQueue\<close>, one await at a time\<close>

text \<open>
  A call of \<^verbatim>\<open>syncQueue\<close> runs up to its first \<^verbatim>\<open>await\<close> and is then suspended; it
  is resumed when the awaited promise settles. A suspended pass is what is left to do:
  waiting for \<^verbatim>\<open>getOfflineQueue()\<close>, for the insert of an item, or for the removal of
  an item, with the items of the snapshot still to come.
\<close>

datatype 'd pass =
    AwaitQueue
  | AwaitInsert "'d OfflineQueueItem" "'d OfflineQueueItem list"
  | AwaitRemove "'d OfflineQueueItem" "'d OfflineQueueItem list"

text \<open>The \<^verbatim>\<open>finally\<close> block.\<close>

definition sync_finally :: "'d hook \<Rightarrow> 'd hook" where
  "sync_finally h = h\<lparr>isSyncingRef := False, isSyncing := False\<rparr>"

text \<open>Lines 17-22: the guard, the two flags, and the request for the queue. The result
  is the suspended pass, if the guard let the call through.\<close>

definition syncQueue_call :: "bool \<Rightarrow> 'd hook \<Rightarrow> 'd pass option \<times> 'd hook" where
  "syncQueue_call isOnline h =
     (if \<not> isOnline \<or> isSyncingRef h then (None, h)
      else (Some AwaitQueue,
            h\<lparr>isSyncingRef := True, isSyncing := True, calls := calls h @ [GetOfflineQueue]\<rparr>))"

text \<open>The head of the \<^verbatim>\<open>for\<close> loop: the next item's insert is requested, or the loop
  is over and the \<^verbatim>\<open>finally\<close> block runs.\<close>

definition next_item :: "'d OfflineQueueItem list \<Rightarrow> 'd hook \<Rightarrow> 'd pass option \<times> 'd hook" where
  "next_item queue h =
     (case queue of
        [] \<Rightarrow> (None, sync_finally h)
      | item # rest \<Rightarrow>
          (Some (AwaitInsert item rest), h\<lparr>calls := calls h @ [Insert (table item) (data item)]\<rparr>))"

fun resume :: "env \<Rightarrow> 'd pass \<Rightarrow> 'd hook \<Rightarrow> 'd pass option \<times> 'd hook" where
  "resume e AwaitQueue h =
     (case getOfflineQueue e (db h) of
        Inl err \<Rightarrow> (None, sync_finally h)
      | Inr queue \<Rightarrow> next_item queue (h\<lparr>pendingCount := int (length queue)\<rparr>))"
| "resume e (AwaitInsert item rest) h =
     (case response e of
        Resolved None \<Rightarrow>
          (Some (AwaitRemove item rest), h\<lparr>calls := calls h @ [RemoveFromOfflineQueue (id' item)]\<rparr>)
      | Resolved (Some error) \<Rightarrow> next_item rest h
      | Rejected \<Rightarrow> next_item rest h)"
| "resume e (AwaitRemove item rest) h =
     (case removeFromOfflineQueue e (id' item) (db h) of
        Inl err \<Rightarrow> next_item rest h
      | Inr database \<Rightarrow>
          next_item rest (h\<lparr>db := database, pendingCount := max 0 (pendingCount h - 1)\<rparr>))"

subsection \<open>\<^verbatim>\<open>syncQueue\<close>, run to completion\<close>

text \<open>
  A pass that nothing interleaves with: the environment's answers are consumed in order,
  one per await. The result is \<open>None\<close> when the answers run out before the pass is over
  (the pass is still suspended).
\<close>

fun complete_pass :: "env list \<Rightarrow> 'd pass option \<times> 'd hook \<Rightarrow> 'd hook option" where
  "complete_pass es (None, h) = Some h"
| "complete_pass [] (Some p, h) = None"
| "complete_pass (e # es) (Some p, h) = complete_pass es (resume e p h)"

definition syncQueue :: "env list \<Rightarrow> bool \<Rightarrow> 'd hook \<Rightarrow> 'd hook option" where
  "syncQueue es isOnline h = complete_pass es (syncQueue_call isOnline h)"

text \<open>A number of answers that is enough for a suspended pass to reach its end.\<close>

fun pass_bound :: "'d pass \<Rightarrow> 'd hook \<Rightarrow> nat" where
  "pass_bound AwaitQueue h = 2 * length (offlineQueue (db h)) + 1"
| "pass_bound (AwaitInsert item rest) h = 2 * length rest + 2"
| "pass_bound (AwaitRemove item rest) h = 2 * length rest + 1"

subsection \<open>The hooks of the application on the event loop\<close>

text \<open>
  The application calls \<^verbatim>\<open>useOfflineSync()\<close> in several components: in \<^verbatim>\<open>Layout\<close>
  (\<^verbatim>\<open>Layout.tsx\<close>, line 27), which \<^verbatim>\<open>App.tsx\<close> keeps mounted around the dashboard, and
  in every form module the dashboard opens (\<^verbatim>\<open>CashActionModule.tsx\<close>, line 27;
  \<^verbatim>\<open>InventoryActionModule.tsx\<close>, lines 29 and 478;
  \<^verbatim>\<open>ReportCreationForm.tsx\<close>, line 18). Every call is an instance of the hook with its
  own \<^verbatim>\<open>useState\<close> and \<^verbatim>\<open>useRef\<close>; all instances read and write the one database of
  \<^verbatim>\<open>lib/offlineDb.ts\<close>.

  The state of the system is therefore the database, once, and for every instance its
  \<open>hook_state\<close> and its suspended passes. \<open>attach\<close> hands the database to an instance
  that is about to run, \<open>detach\<close> takes the instance's own part of the result, and \<open>put\<close>
  writes both back. An instance that is unmounted gets no further calls, but a pass of it
  that is in flight runs on, so instances stay in the list.

  The run time is single-threaded: between two awaits nothing else runs. An event is the
  mounting of a further instance, a call of \<^verbatim>\<open>syncQueue\<close> on instance \<open>i\<close> (by its
  connectivity effect or the sync button, with the \<^verbatim>\<open>isOnline\<close> of its closure), the
  settling of the promise that pass number \<open>k\<close> of instance \<open>i\<close> awaits, a submission
  through instance \<open>i\<close>, the mount effect \<^verbatim>\<open>loadPendingCount\<close> of instance \<open>i\<close>, or
  \<^verbatim>\<open>clearCache\<close>. A submission changes the hook and the database only in the step that
  follows its \<^verbatim>\<open>addToOfflineQueue\<close>, so it is one event.
\<close>

definition attach :: "'d database \<Rightarrow> 'd hook_state \<Rightarrow> 'd hook" where
  "attach database st =
     \<lparr>pendingCount = pendingCount st, isSyncing = isSyncing st,
      isSyncingRef = isSyncingRef st, calls = calls st, db = database\<rparr>"

definition detach :: "'d hook \<Rightarrow> 'd hook_state" where
  "detach h =
     \<lparr>pendingCount = pendingCount h, isSyncing = isSyncing h,
      isSyncingRef = isSyncingRef h, calls = calls h\<rparr>"

record 'd hook_instance =
  state :: "'d hook_state"
  passes :: "'d pass list"

record 'd sys =
  store :: "'d database"
  instances :: "'d hook_instance list"

datatype 'd event =
    Mount
  | Trigger nat bool
  | Resume nat nat env
  | Submit nat env bool string 'd
  | LoadPendingCount nat env
  | ClearCache env


definition view :: "nat \<Rightarrow> 'd sys \<Rightarrow> 'd hook" where
  "view i s = attach (store s) (state (instances s ! i))"

definition put :: "nat \<Rightarrow> 'd hook \<Rightarrow> 'd pass list \<Rightarrow> 'd sys \<Rightarrow> 'd sys" where
  "put i h ps s =
     s\<lparr>store := db h, instances := (instances s)[i := \<lparr>state = detach h, passes = ps\<rparr>]\<rparr>"

fun step :: "'d event \<Rightarrow> 'd sys \<Rightarrow> 'd sys" where
  "step Mount s =
     s\<lparr>instances := instances s @ [\<lparr>state = detach (mount (store s)), passes = []\<rparr>]\<rparr>"
| "step (Trigger i isOnline) s =
     (if i < length (instances s) then
        (case syncQueue_call isOnline (view i s) of
           (None, h) \<Rightarrow> put i h (passes (instances s ! i)) s
         | (Some p, h) \<Rightarrow> put i h (passes (instances s ! i) @ [p]) s)
      else s)"
| "step (Resume i k e) s =
     (if i < length (instances s) \<and> k < length (passes (instances s ! i)) then
        (case resume e (passes (instances s ! i) ! k) (view i s) of
           (None, h) \<Rightarrow>
             put i h (take k (passes (instances s ! i)) @ drop (Suc k) (passes (instances s ! i))) s
         | (Some p, h) \<Rightarrow> put i h ((passes (instances s ! i))[k := p]) s)
      else s)"
| "step (Submit i e isOnline tbl dat) s =
     (if i < length (instances s) then
        put i (snd (submitWithOfflineSupport e isOnline tbl dat (view i s)))
          (passes (instances s ! i)) s
      else s)"
| "step (LoadPendingCount i e) s =
     (if i < length (instances s) then
        put i (loadPendingCount e (view i s)) (passes (instances s ! i)) s
      else s)"
| "step (ClearCache e) s =
     (case clearCache e (store s) of
        Inl err \<Rightarrow> s
      | Inr database \<Rightarrow> s\<lparr>store := database\<rparr>)"

definition run :: "'d event list \<Rightarrow> 'd sys \<Rightarrow> 'd sys" where
  "run evs s = fold step evs s"







subsection \<open>Submissions in sequence\<close>

text \<open>Calls of \<^verbatim>\<open>submitWithOfflineSupport\<close> made one after the other while the hook
  sees the connection as offline, each awaited; every call has its own environment, table
  and record. The results are kept in order.\<close>

fun submit_all ::
  "(env \<times> string \<times> 'd) list \<Rightarrow> 'd hook \<Rightarrow> (dom_exception + submit_result) list \<times> 'd hook" where
  "submit_all [] h = ([], h)"
| "submit_all ((e, tbl, dat) # cs) h =
     (case submitWithOfflineSupport e False tbl dat h of
        (r, h1) \<Rightarrow> (case submit_all cs h1 of (rs, h2) \<Rightarrow> (r # rs, h2)))"

section \<open>Invariants\<close>








section \<open>Properties\<close>

lemma completedCount_all:
  "completedCount xs = length xs \<longleftrightarrow> (\<forall>i \<in> set xs. completed i)"
proof (induction xs)
  case Nil
  show ?case by (simp add: completedCount_def)
next
  case (Cons x xs)
  have le: "length (filter completed xs) \<noteq> Suc (length xs)"
    using length_filter_le [of completed xs] by linarith
  show ?case
  proof (cases "completed x")
    case True
    with Cons show ?thesis by (simp add: completedCount_def)
  next
    case False
    with le show ?thesis by (simp add: completedCount_def)
  qed
qed


lemma completedCount_less:
  "completedCount xs < totalCount xs \<longleftrightarrow> \<not> (\<forall>i \<in> set xs. completed i)"
proof -
  have "completedCount xs \<le> length xs"
    unfolding completedCount_def by (rule length_filter_le)
  then have "completedCount xs < length xs \<longleftrightarrow> completedCount xs \<noteq> length xs"
    by linarith
  then show ?thesis
    by (simp add: totalCount_def completedCount_all)
qed

lemma find_insort_key_new:
  "P r \<Longrightarrow> \<forall>x \<in> set rs. \<not> P x \<Longrightarrow> find P (insort_key k r rs) = Some r"
  by (induction rs) auto

lemma store_get_put: "store_get k (k r) (store_put k r rs) = Some r"
  unfolding store_get_def store_put_def by (rule find_insort_key_new) auto

subsection \<open>Severity of a cash variance\<close>

text \<open>
  C6. For every variance \<open>v\<close> the severity is critical if \<open>\<bar>v\<bar> \<ge> 100\<close>, else high if
  \<open>\<bar>v\<bar> \<ge> 50\<close>, else medium if \<open>\<bar>v\<bar> \<ge> 20\<close>, else low. Each tier is the half-open interval
  from its own threshold (inclusive) up to the next one (exclusive), so the four tiers
  cover every absolute variance and no two of them overlap.
\<close>

theorem calculateSeverity_tiers:
  "calculateSeverity v =
     (if \<bar>v\<bar> \<ge> 100 then critical else if \<bar>v\<bar> \<ge> 50 then high
      else if \<bar>v\<bar> \<ge> 20 then medium else low)
   \<and> (calculateSeverity v = critical \<longleftrightarrow> 100 \<le> \<bar>v\<bar>)
   \<and> (calculateSeverity v = high \<longleftrightarrow> 50 \<le> \<bar>v\<bar> \<and> \<bar>v\<bar> < 100)
   \<and> (calculateSeverity v = medium \<longleftrightarrow> 20 \<le> \<bar>v\<bar> \<and> \<bar>v\<bar> < 50)
   \<and> (calculateSeverity v = low \<longleftrightarrow> \<bar>v\<bar> < 20)"
  by (simp add: calculateSeverity_def Let_def)

theorem calculateSeverity_tiers_witness:
  "calculateSeverity 100 = critical \<and> calculateSeverity (-50) = high
   \<and> calculateSeverity 20 = medium \<and> calculateSeverity 19.99 = low"
  using calculateSeverity_tiers [of 100] calculateSeverity_tiers [of "-50"]
    calculateSeverity_tiers [of 20] calculateSeverity_tiers [of "19.99"]
  by simp

text \<open>
  C7, as the specification lists the scenarios: 4.99 is low, 5.00 medium, 19.99 medium,
  20.00 high, 49.99 high, 50.00 critical and 99.99 high. The list follows the thresholds
  5, 20 and 50 for its first six entries; the function uses 20, 50 and 100, so already 5.00
  is low.
\<close>

theorem severity_scenarios_counterexample:
  "\<not> (calculateSeverity 4.99 = low \<and> calculateSeverity 5.00 = medium
      \<and> calculateSeverity 19.99 = medium \<and> calculateSeverity 20.00 = high
      \<and> calculateSeverity 49.99 = high \<and> calculateSeverity 50.00 = critical
      \<and> calculateSeverity 99.99 = high)"
  by (simp add: calculateSeverity_def Let_def)

text \<open>
  C7, amended: the severity of the listed variances is 4.99 low, 5.00 low, 19.99 low,
  20.00 medium, 49.99 medium, 50.00 high and 99.99 high.
\<close>

theorem severity_scenarios:
  "calculateSeverity 4.99 = low \<and> calculateSeverity 5.00 = low
   \<and> calculateSeverity 19.99 = low \<and> calculateSeverity 20.00 = medium
   \<and> calculateSeverity 49.99 = medium \<and> calculateSeverity 50.00 = high
   \<and> calculateSeverity 99.99 = high"
  by (simp add: calculateSeverity_def Let_def)

subsection \<open>Checklist completion\<close>

text \<open>
  C9. For an opening or closing checklist the submit button is enabled (outside a running
  submission) exactly when every checklist item is completed, and the submitted action is
  stamped as completed exactly then; for a maintenance request the button is enabled and
  the action is stamped whatever the checklist items are.
\<close>

theorem checklist_gate:
  "(actionType \<noteq> maintenance \<longrightarrow>
      (\<not> submit_disabled False actionType checklistItems
         \<longleftrightarrow> (\<forall>i \<in> set checklistItems. completed i)))
   \<and> \<not> submit_disabled False maintenance checklistItems
   \<and> (actionType \<noteq> maintenance \<longrightarrow>
      (action_completed_at t actionType checklistItems \<noteq> None
         \<longleftrightarrow> (\<forall>i \<in> set checklistItems. completed i)))
   \<and> action_completed_at t maintenance checklistItems = Some t"
  by (simp add: submit_disabled_def completedCount_less action_completed_at_def
      isFullyCompleted_def completedCount_all)

theorem checklist_gate_witness:
  "opening_checklist \<noteq> maintenance
   \<and> submit_disabled False opening_checklist
       [\<lparr>item_id = ''open-1'', label = ''Unlock'', completed = True, completed_at = Some ''t1''\<rparr>,
        \<lparr>item_id = ''open-2'', label = ''Lights'', completed = False, completed_at = None\<rparr>]
   \<and> \<not> submit_disabled False opening_checklist
       [\<lparr>item_id = ''open-1'', label = ''Unlock'', completed = True, completed_at = Some ''t1''\<rparr>,
        \<lparr>item_id = ''open-2'', label = ''Lights'', completed = True, completed_at = Some ''t2''\<rparr>]
   \<and> \<not> submit_disabled False maintenance
       [\<lparr>item_id = ''open-2'', label = ''Lights'', completed = False, completed_at = None\<rparr>]"
  using
    checklist_gate [of opening_checklist
      "[\<lparr>item_id = ''open-1'', label = ''Unlock'', completed = True, completed_at = Some ''t1''\<rparr>,
        \<lparr>item_id = ''open-2'', label = ''Lights'', completed = False, completed_at = None\<rparr>]"]
    checklist_gate [of opening_checklist
      "[\<lparr>item_id = ''open-1'', label = ''Unlock'', completed = True, completed_at = Some ''t1''\<rparr>,
        \<lparr>item_id = ''open-2'', label = ''Lights'', completed = True, completed_at = Some ''t2''\<rparr>]"]
    checklist_gate [of maintenance
      "[\<lparr>item_id = ''open-2'', label = ''Lights'', completed = False, completed_at = None\<rparr>]"]
  by simp

subsection \<open>The read cache\<close>

text \<open>
  C10. After \<^verbatim>\<open>cacheData(k, c, v)\<close> the store holds an entry for \<open>k\<close> with the value
  \<open>v\<close>, and \<^verbatim>\<open>getCachedData(k)\<close> gives \<open>v\<close> back when \<open>v\<close> is truthy and \<^verbatim>\<open>null\<close> when
  \<open>v\<close> is falsy (provided neither request fails in the storage layer).
\<close>

theorem cache_get_after_put:
  assumes "fault e1 = None" and "fault e2 = None"
  shows "\<exists>db1. cacheData e1 k c v database = Inr db1
           \<and> store_get key k (cachedData db1)
               = Some \<lparr>key = k, table_c = c, data_c = v, timestamp_c = now e1\<rparr>
           \<and> getCachedData e2 k db1 = Inr (if truthy v then v else JNull)"
  using assms store_get_put [of key "\<lparr>key = k, table_c = c, data_c = v, timestamp_c = now e1\<rparr>"]
  by (simp add: cacheData_def getCachedData_def js_or_def)

theorem cache_get_after_put_witness:
  "\<exists>db1. cacheData \<lparr>uuid = ''u'', now = 7, fault = None, response = Rejected\<rparr>
            ''stores'' ''stores'' (JNumber 0) \<lparr>offlineQueue = ([] :: unit OfflineQueueItem list), cachedData = []\<rparr>
          = Inr db1
        \<and> store_get key ''stores'' (cachedData db1)
            = Some \<lparr>key = ''stores'', table_c = ''stores'', data_c = JNumber 0, timestamp_c = 7\<rparr>
        \<and> getCachedData \<lparr>uuid = ''v'', now = 8, fault = None, response = Rejected\<rparr> ''stores'' db1
            = Inr JNull"
  using cache_get_after_put
    [of "\<lparr>uuid = ''u'', now = 7, fault = None, response = Rejected\<rparr>"
        "\<lparr>uuid = ''v'', now = 8, fault = None, response = Rejected\<rparr>"
        "''stores''" "''stores''" "JNumber 0"
        "\<lparr>offlineQueue = ([] :: unit OfflineQueueItem list), cachedData = []\<rparr>"]
  by simp


subsection \<open>The pending-write queue\<close>

lemma addToOfflineQueue_Inr:
  "addToOfflineQueue e t d database = Inr (i, database') \<longleftrightarrow>
     fault e = None \<and> uuid e \<notin> id' ` set (offlineQueue database) \<and> i = uuid e
     \<and> database' = database\<lparr>offlineQueue :=
          insort_key id' \<lparr>id' = uuid e, table = t, data = d, timestamp = now e\<rparr>
            (offlineQueue database)\<rparr>"
  by (auto simp: addToOfflineQueue_def store_add_def Let_def split: option.splits)

text \<open>
  C8. On an empty queue, \<^verbatim>\<open>addToOfflineQueue(t, p)\<close> returns an id, after which
  \<^verbatim>\<open>getOfflineQueue()\<close> is exactly one item, with that id, table \<open>t\<close> and data \<open>p\<close>;
  after \<^verbatim>\<open>removeFromOfflineQueue(id)\<close> the queue holds no item any more (none of the four
  requests failing in the storage layer).
\<close>

theorem queue_round_trip:
  assumes "offlineQueue database = []"
    and "fault e1 = None" and "fault e2 = None" and "fault e3 = None" and "fault e4 = None"
  shows "\<exists>i db1 db2.
           addToOfflineQueue e1 t p database = Inr (i, db1)
         \<and> getOfflineQueue e2 db1 = Inr [\<lparr>id' = i, table = t, data = p, timestamp = now e1\<rparr>]
         \<and> removeFromOfflineQueue e3 i db1 = Inr db2
         \<and> getOfflineQueue e4 db2 = Inr []"
  using assms
  by (simp add: addToOfflineQueue_def store_add_def getOfflineQueue_def
      removeFromOfflineQueue_def store_delete_def)

theorem queue_round_trip_witness:
  "\<exists>i db1 db2.
     addToOfflineQueue \<lparr>uuid = ''id-1'', now = 5, fault = None, response = Rejected\<rparr>
       ''test_table'' (JObject [(''foo'', JString ''bar'')])
       \<lparr>offlineQueue = [], cachedData = []\<rparr> = Inr (i, db1)
   \<and> getOfflineQueue \<lparr>uuid = ''id-2'', now = 6, fault = None, response = Rejected\<rparr> db1
       = Inr [\<lparr>id' = i, table = ''test_table'', data = JObject [(''foo'', JString ''bar'')],
               timestamp = 5\<rparr>]
   \<and> removeFromOfflineQueue \<lparr>uuid = ''id-3'', now = 7, fault = None, response = Rejected\<rparr> i db1
       = Inr db2
   \<and> getOfflineQueue \<lparr>uuid = ''id-4'', now = 8, fault = None, response = Rejected\<rparr> db2 = Inr []"
  using queue_round_trip
    [of "\<lparr>offlineQueue = [], cachedData = []\<rparr>"
        "\<lparr>uuid = ''id-1'', now = 5, fault = None, response = Rejected\<rparr>"
        "\<lparr>uuid = ''id-2'', now = 6, fault = None, response = Rejected\<rparr>"
        "\<lparr>uuid = ''id-3'', now = 7, fault = None, response = Rejected\<rparr>"
        "\<lparr>uuid = ''id-4'', now = 8, fault = None, response = Rejected\<rparr>"
        "''test_table''" "JObject [(''foo'', JString ''bar'')]"]
  by simp

subsection \<open>Submissions\<close>

text \<open>
  C4. When the hook sees the connection as online and the remote insert rejects or
  resolves with an error, and the local enqueue succeeds, \<^verbatim>\<open>submitWithOfflineSupport\<close>
  returns \<^verbatim>\<open>{success: true, offline: true}\<close> without raising, the record is in the queue
  (which has grown by one), and the pending count has grown by exactly one.
\<close>

theorem online_submit_fallback:
  assumes "response e \<noteq> Resolved None"
    and "addToOfflineQueue e t d (db h) = Inr (i, database)"
  shows "submitWithOfflineSupport e True t d h =
           (Inr \<lparr>success = True, offline = True\<rparr>,
            h\<lparr>calls := calls h @ [Insert t d, AddToOfflineQueue t d],
              db := database, pendingCount := pendingCount h + 1\<rparr>)
         \<and> set (offlineQueue database) =
             insert \<lparr>id' = i, table = t, data = d, timestamp = now e\<rparr> (set (offlineQueue (db h)))
         \<and> length (offlineQueue database) = length (offlineQueue (db h)) + 1"
proof -
  from assms(2) have db': "database = (db h)\<lparr>offlineQueue :=
          insort_key id' \<lparr>id' = uuid e, table = t, data = d, timestamp = now e\<rparr>
            (offlineQueue (db h))\<rparr>"
    and i: "i = uuid e"
    by (simp_all add: addToOfflineQueue_Inr)
  have "submitWithOfflineSupport e True t d h =
           (Inr \<lparr>success = True, offline = True\<rparr>,
            h\<lparr>calls := calls h @ [Insert t d, AddToOfflineQueue t d],
              db := database, pendingCount := pendingCount h + 1\<rparr>)"
    using assms
    by (cases "response e")
      (auto simp: submitWithOfflineSupport_def enqueue_offline_def Let_def split: option.splits)
  then show ?thesis
    by (simp add: db' i set_insort_key)
qed

theorem online_submit_fallback_witness:
  "response \<lparr>uuid = ''id-9'', now = 3, fault = None, response = Resolved (Some ''fail'')\<rparr>
     \<noteq> Resolved None
   \<and> fst (submitWithOfflineSupport
        \<lparr>uuid = ''id-9'', now = 3, fault = None, response = Resolved (Some ''fail'')\<rparr>
        True ''test'' (JObject [(''foo'', JString ''bar'')])
        (mount \<lparr>offlineQueue = [], cachedData = []\<rparr>))
       = Inr \<lparr>success = True, offline = True\<rparr>
   \<and> pendingCount (snd (submitWithOfflineSupport
        \<lparr>uuid = ''id-9'', now = 3, fault = None, response = Resolved (Some ''fail'')\<rparr>
        True ''test'' (JObject [(''foo'', JString ''bar'')])
        (mount \<lparr>offlineQueue = [], cachedData = []\<rparr>))) = 1"
  using online_submit_fallback
    [of "\<lparr>uuid = ''id-9'', now = 3, fault = None, response = Resolved (Some ''fail'')\<rparr>"
        "''test''" "JObject [(''foo'', JString ''bar'')]"
        "mount \<lparr>offlineQueue = [], cachedData = []\<rparr>"
        "''id-9''"
        "\<lparr>offlineQueue = [\<lparr>id' = ''id-9'', table = ''test'',
             data = JObject [(''foo'', JString ''bar'')], timestamp = 3\<rparr>], cachedData = []\<rparr>"]
  by (simp add: addToOfflineQueue_def store_add_def mount_def)

lemma offline_submit_fresh:
  assumes "fault e = None" and "uuid e \<notin> id' ` set (offlineQueue (db h))"
  shows "submitWithOfflineSupport e False t d h =
           (Inr \<lparr>success = True, offline = True\<rparr>,
            h\<lparr>calls := calls h @ [AddToOfflineQueue t d],
              db := (db h)\<lparr>offlineQueue :=
                insort_key id' \<lparr>id' = uuid e, table = t, data = d, timestamp = now e\<rparr>
                  (offlineQueue (db h))\<rparr>,
              pendingCount := pendingCount h + 1\<rparr>)"
  using assms
  by (simp add: submitWithOfflineSupport_def enqueue_offline_def addToOfflineQueue_def
      store_add_def Let_def)

lemma submit_all_fresh:
  assumes "\<forall>c \<in> set cs. fault (fst c) = None"
    and "distinct (map (uuid \<circ> fst) cs)"
    and "\<forall>c \<in> set cs. uuid (fst c) \<notin> id' ` set (offlineQueue (db h))"
  shows "fst (submit_all cs h) = replicate (length cs) (Inr \<lparr>success = True, offline = True\<rparr>)
       \<and> pendingCount (snd (submit_all cs h)) = pendingCount h + int (length cs)
       \<and> length (offlineQueue (db (snd (submit_all cs h))))
           = length (offlineQueue (db h)) + length cs"
  using assms
proof (induction cs arbitrary: h)
  case Nil
  show ?case by simp
next
  case (Cons c cs)
  obtain e t d where c: "c = (e, t, d)" by (cases c)
  define h1 where "h1 = snd (submitWithOfflineSupport e False t d h)"
  from Cons.prems c have e: "fault e = None" "uuid e \<notin> id' ` set (offlineQueue (db h))"
    by simp_all
  note sub = offline_submit_fresh [OF e, of t d]
  have q1: "offlineQueue (db h1) =
      insort_key id' \<lparr>id' = uuid e, table = t, data = d, timestamp = now e\<rparr> (offlineQueue (db h))"
    and p1: "pendingCount h1 = pendingCount h + 1"
    by (simp_all add: h1_def sub)
  have fresh: "\<forall>c \<in> set cs. uuid (fst c) \<notin> id' ` set (offlineQueue (db h1))"
    using Cons.prems c by (fastforce simp: q1 set_insort_key image_iff)
  have IH: "fst (submit_all cs h1) = replicate (length cs) (Inr \<lparr>success = True, offline = True\<rparr>)
       \<and> pendingCount (snd (submit_all cs h1)) = pendingCount h1 + int (length cs)
       \<and> length (offlineQueue (db (snd (submit_all cs h1))))
           = length (offlineQueue (db h1)) + length cs"
    using Cons.prems fresh by (intro Cons.IH) simp_all
  have unfold: "submit_all (c # cs) h =
      (Inr \<lparr>success = True, offline = True\<rparr> # fst (submit_all cs h1), snd (submit_all cs h1))"
    by (simp add: c sub h1_def split: prod.splits)
  show ?case
    using IH by (simp add: unfold p1 q1)
qed

text \<open>
  C5. From an empty queue and a pending count of 0, after \<open>n\<close> offline submissions (with
  the ids that \<^verbatim>\<open>crypto.randomUUID()\<close> hands out pairwise different and no failure of the
  storage layer) every call has returned \<^verbatim>\<open>{success: true, offline: true}\<close>, the pending
  count is \<open>n\<close> and the queue holds \<open>n\<close> items.
\<close>

theorem offline_submits_counted:
  assumes "offlineQueue (db h) = []" and "pendingCount h = 0"
    and "\<forall>c \<in> set cs. fault (fst c) = None"
    and "distinct (map (uuid \<circ> fst) cs)"
  shows "fst (submit_all cs h) = replicate (length cs) (Inr \<lparr>success = True, offline = True\<rparr>)
       \<and> pendingCount (snd (submit_all cs h)) = int (length cs)
       \<and> length (offlineQueue (db (snd (submit_all cs h)))) = length cs"
  using submit_all_fresh [of cs h] assms by simp

theorem offline_submits_counted_witness:
  "pendingCount (snd (submit_all
     [(\<lparr>uuid = ''b'', now = 1, fault = None, response = Rejected\<rparr>, ''cash_actions'', JNumber 1),
      (\<lparr>uuid = ''a'', now = 2, fault = None, response = Rejected\<rparr>, ''store_actions'', JNumber 2),
      (\<lparr>uuid = ''c'', now = 3, fault = None, response = Rejected\<rparr>, ''cash_actions'', JNumber 1)]
     (mount \<lparr>offlineQueue = [], cachedData = []\<rparr>))) = 3
   \<and> length (offlineQueue (db (snd (submit_all
     [(\<lparr>uuid = ''b'', now = 1, fault = None, response = Rejected\<rparr>, ''cash_actions'', JNumber 1),
      (\<lparr>uuid = ''a'', now = 2, fault = None, response = Rejected\<rparr>, ''store_actions'', JNumber 2),
      (\<lparr>uuid = ''c'', now = 3, fault = None, response = Rejected\<rparr>, ''cash_actions'', JNumber 1)]
     (mount \<lparr>offlineQueue = [], cachedData = []\<rparr>))))) = 3"
  using offline_submits_counted
    [of "mount \<lparr>offlineQueue = [], cachedData = []\<rparr>"
     "[(\<lparr>uuid = ''b'', now = 1, fault = None, response = Rejected\<rparr>, ''cash_actions'', JNumber 1),
      (\<lparr>uuid = ''a'', now = 2, fault = None, response = Rejected\<rparr>, ''store_actions'', JNumber 2),
      (\<lparr>uuid = ''c'', now = 3, fault = None, response = Rejected\<rparr>, ''cash_actions'', JNumber 1)]"]
  by (simp add: mount_def)


subsection \<open>One drain pass\<close>

text \<open>A pass always reaches its end: one answer for the read and at most two per item of
  the snapshot are enough.\<close>

lemma next_item_bound:
  assumes "next_item rest h = (Some p', h')"
  shows "pass_bound p' h' < 2 * length rest + 1"
  using assms by (auto simp: next_item_def split: list.splits)

lemma resume_bound:
  assumes "resume e p h = (Some p', h')"
  shows "pass_bound p' h' < pass_bound p h"
proof (cases p)
  case AwaitQueue
  with assms show ?thesis
    by (auto simp: getOfflineQueue_def split: sum.splits option.splits dest!: next_item_bound)
next
  case (AwaitInsert item rest)
  with assms show ?thesis
    by (auto split: insert_result.splits option.splits dest!: next_item_bound)
next
  case (AwaitRemove item rest)
  with assms show ?thesis
    by (auto split: sum.splits dest!: next_item_bound)
qed

lemma complete_pass_finishes:
  "pass_bound p h \<le> length es \<Longrightarrow> \<exists>h'. complete_pass es (Some p, h) = Some h'"
proof (induction es arbitrary: p h)
  case Nil
  then show ?case by (cases p) simp_all
next
  case (Cons e es)
  obtain po h1 where r: "resume e p h = (po, h1)" by (cases "resume e p h")
  show ?case
  proof (cases po)
    case None
    with r show ?thesis by simp
  next
    case (Some p1)
    with r resume_bound [of e p h p1 h1] Cons.prems have "pass_bound p1 h1 \<le> length es"
      by simp
    from Cons.IH [OF this] r Some show ?thesis by simp
  qed
qed

lemma syncQueue_finishes:
  assumes "2 * length (offlineQueue (db h)) + 1 \<le> length es"
  shows "\<exists>h'. syncQueue es isOnline h = Some h'"
proof (cases "\<not> isOnline \<or> isSyncingRef h")
  case True
  then show ?thesis by (auto simp: syncQueue_def syncQueue_call_def)
next
  case False
  with assms complete_pass_finishes [of AwaitQueue
      "h\<lparr>isSyncingRef := True, isSyncing := True, calls := calls h @ [GetOfflineQueue]\<rparr>" es]
  show ?thesis by (simp add: syncQueue_def syncQueue_call_def)
qed

text \<open>
  C2. With exactly three items in the queue, a pass whose insert succeeds for the first
  and the third item and fails (rejects or resolves with an error) for the second one
  runs to its end: it has tried all three inserts, removed the first and the third item,
  left the second in the queue, and the pending count is 1.
\<close>

theorem drain_partial_failure:
  assumes "offlineQueue (db h) = [i1, i2, i3]"
    and "distinct [id' i1, id' i2, id' i3]"
    and "\<not> isSyncingRef h"
    and "fault e0 = None"
    and "response e1 = Resolved None" and "fault r1 = None"
    and "response e2 \<noteq> Resolved None"
    and "response e3 = Resolved None" and "fault r3 = None"
  shows "\<exists>h'. syncQueue [e0, e1, r1, e2, e3, r3] True h = Some h'
           \<and> offlineQueue (db h') = [i2]
           \<and> pendingCount h' = 1
           \<and> \<not> isSyncingRef h' \<and> \<not> isSyncing h'
           \<and> calls h' = calls h @
               [GetOfflineQueue,
                Insert (table i1) (data i1), RemoveFromOfflineQueue (id' i1),
                Insert (table i2) (data i2),
                Insert (table i3) (data i3), RemoveFromOfflineQueue (id' i3)]"
proof (cases "response e2")
  case (Resolved err)
  with assms obtain msg where "response e2 = Resolved (Some msg)" by (cases err) auto
  with assms show ?thesis
    by (auto simp: syncQueue_def syncQueue_call_def getOfflineQueue_def next_item_def
        removeFromOfflineQueue_def store_delete_def sync_finally_def)
next
  case Rejected
  with assms show ?thesis
    by (auto simp: syncQueue_def syncQueue_call_def getOfflineQueue_def next_item_def
        removeFromOfflineQueue_def store_delete_def sync_finally_def)
qed

theorem drain_partial_failure_witness:
  "\<exists>h'. syncQueue
      [\<lparr>uuid = [], now = 10, fault = None, response = Rejected\<rparr>,
       \<lparr>uuid = [], now = 11, fault = None, response = Resolved None\<rparr>,
       \<lparr>uuid = [], now = 12, fault = None, response = Rejected\<rparr>,
       \<lparr>uuid = [], now = 13, fault = None, response = Resolved (Some ''row violates policy'')\<rparr>,
       \<lparr>uuid = [], now = 14, fault = None, response = Resolved None\<rparr>,
       \<lparr>uuid = [], now = 15, fault = None, response = Rejected\<rparr>]
      True
      \<lparr>pendingCount = 3, isSyncing = False, isSyncingRef = False, calls = [],
        db = \<lparr>offlineQueue =
              [\<lparr>id' = ''1'', table = ''test'', data = JNumber 1, timestamp = 1\<rparr>,
               \<lparr>id' = ''2'', table = ''test'', data = JNumber 2, timestamp = 2\<rparr>,
               \<lparr>id' = ''3'', table = ''test'', data = JNumber 3, timestamp = 3\<rparr>],
             cachedData = []\<rparr>\<rparr> = Some h'
     \<and> offlineQueue (db h') = [\<lparr>id' = ''2'', table = ''test'', data = JNumber 2, timestamp = 2\<rparr>]
     \<and> pendingCount h' = 1"
  using drain_partial_failure
    [of "\<lparr>pendingCount = 3, isSyncing = False, isSyncingRef = False, calls = [],
        db = \<lparr>offlineQueue =
              [\<lparr>id' = ''1'', table = ''test'', data = JNumber 1, timestamp = 1\<rparr>,
               \<lparr>id' = ''2'', table = ''test'', data = JNumber 2, timestamp = 2\<rparr>,
               \<lparr>id' = ''3'', table = ''test'', data = JNumber 3, timestamp = 3\<rparr>],
             cachedData = []\<rparr>\<rparr>"
       "\<lparr>id' = ''1'', table = ''test'', data = JNumber 1, timestamp = 1\<rparr>"
       "\<lparr>id' = ''2'', table = ''test'', data = JNumber 2, timestamp = 2\<rparr>"
       "\<lparr>id' = ''3'', table = ''test'', data = JNumber 3, timestamp = 3\<rparr>"
       "\<lparr>uuid = [], now = 10, fault = None, response = Rejected\<rparr>"
       "\<lparr>uuid = [], now = 11, fault = None, response = Resolved None\<rparr>"
       "\<lparr>uuid = [], now = 12, fault = None, response = Rejected\<rparr>"
       "\<lparr>uuid = [], now = 13, fault = None, response = Resolved (Some ''row violates policy'')\<rparr>"
       "\<lparr>uuid = [], now = 14, fault = None, response = Resolved None\<rparr>"
       "\<lparr>uuid = [], now = 15, fault = None, response = Rejected\<rparr>"]
  by auto

subsection \<open>At most one pass in flight per instance\<close>

lemma detach_attach [simp]: "detach (attach database st) = st"
  by (simp add: detach_def attach_def)

lemma attach_detach [simp]: "attach (db h) (detach h) = h"
  by (simp add: detach_def attach_def)

lemma attach_sel [simp]:
  "db (attach database st) = database"
  "pendingCount (attach database st) = pendingCount st"
  "isSyncing (attach database st) = isSyncing st"
  "isSyncingRef (attach database st) = isSyncingRef st"
  "calls (attach database st) = calls st"
  by (simp_all add: attach_def)

lemma detach_sel [simp]:
  "pendingCount (detach h) = pendingCount h"
  "isSyncing (detach h) = isSyncing h"
  "isSyncingRef (detach h) = isSyncingRef h"
  "calls (detach h) = calls h"
  by (simp_all add: detach_def)

lemma put_sel [simp]:
  "store (put i h ps s) = db h"
  "length (instances (put i h ps s)) = length (instances s)"
  "i < length (instances s) \<Longrightarrow> instances (put i h ps s) ! i = \<lparr>state = detach h, passes = ps\<rparr>"
  "j \<noteq> i \<Longrightarrow> instances (put i h ps s) ! j = instances s ! j"
  by (simp_all add: put_def)

lemma view_put [simp]: "i < length (instances s) \<Longrightarrow> view i (put i h ps s) = h"
  by (simp add: view_def)

lemma instance_eta: "\<lparr>state = state m, passes = passes m\<rparr> = m"
  by (cases m) simp

lemma put_view [simp]:
  "i < length (instances s) \<Longrightarrow> put i (view i s) (passes (instances s ! i)) s = s"
  by (simp add: put_def view_def instance_eta)

lemma put_put [simp]: "put i h ps (put i h' ps' s) = put i h ps s"
  by (simp add: put_def)

lemma view_sel [simp]:
  "db (view i s) = store s"
  "pendingCount (view i s) = pendingCount (state (instances s ! i))"
  "isSyncingRef (view i s) = isSyncingRef (state (instances s ! i))"
  "calls (view i s) = calls (state (instances s ! i))"
  by (simp_all add: view_def)



lemma submit_flag [simp]:
  "isSyncingRef (snd (submitWithOfflineSupport e b t d h)) = isSyncingRef h"
  by (auto simp: submitWithOfflineSupport_def enqueue_offline_def Let_def
      split: insert_result.splits option.splits sum.splits prod.splits)

lemma loadPendingCount_flag [simp]:
  "isSyncingRef (loadPendingCount e h) = isSyncingRef h"
  by (auto simp: loadPendingCount_def Let_def split: sum.splits)





text \<open>The pass run to completion is the pass of an instance on the event loop when
  nothing interleaves: the call, then one resumption per answer consumed.\<close>

lemma complete_pass_run:
  assumes "i < length (instances s)"
  shows "complete_pass es (Some p, h) = Some h' \<Longrightarrow>
     \<exists>n \<le> length es. run (map (Resume i 0) (take n es)) (put i h [p] s) = put i h' [] s"
proof (induction es arbitrary: p h)
  case Nil
  then show ?case by simp
next
  case (Cons e es)
  obtain po h1 where r: "resume e p h = (po, h1)" by (cases "resume e p h")
  show ?case
  proof (cases po)
    case None
    with r Cons.prems have "h' = h1" by simp
    with r None assms have "run (map (Resume i 0) (take 1 (e # es))) (put i h [p] s)
        = put i h' [] s"
      by (simp add: run_def)
    then show ?thesis by (intro exI [of _ 1]) simp
  next
    case (Some p1)
    with r Cons.prems have "complete_pass es (Some p1, h1) = Some h'" by simp
    from Cons.IH [OF this] obtain n where n: "n \<le> length es"
      and run: "run (map (Resume i 0) (take n es)) (put i h1 [p1] s) = put i h' [] s"
      by blast
    from r Some run assms
    have "run (map (Resume i 0) (take (Suc n) (e # es))) (put i h [p] s) = put i h' [] s"
      by (simp add: run_def)
    with n show ?thesis by (intro exI [of _ "Suc n"]) simp
  qed
qed

lemma syncQueue_run:
  assumes "i < length (instances s)" and "passes (instances s ! i) = []"
    and "\<not> isSyncingRef (state (instances s ! i))"
    and "syncQueue es True (view i s) = Some h'"
  shows "\<exists>n \<le> length es. run (Trigger i True # map (Resume i 0) (take n es)) s = put i h' [] s"
proof -
  let ?h1 = "(view i s)\<lparr>isSyncingRef := True, isSyncing := True,
               calls := calls (view i s) @ [GetOfflineQueue]\<rparr>"
  from assms have "complete_pass es (Some AwaitQueue, ?h1) = Some h'"
    by (simp add: syncQueue_def syncQueue_call_def)
  from complete_pass_run [OF assms(1) this] obtain n where "n \<le> length es"
    and "run (map (Resume i 0) (take n es)) (put i ?h1 [AwaitQueue] s) = put i h' [] s"
    by blast
  with assms(1-3) show ?thesis
    by (intro exI [of _ n]) (simp add: run_def syncQueue_call_def)
qed





subsection \<open>The pending count and the queue\<close>
















end
